theory Spec2Isabelle
  imports Main
begin

section \<open>Library functions used by envflag\<close>

text \<open>
  Go strings are byte sequences; they are modelled as \<open>string\<close> (a list of bytes).
  The functions of this section are those of the Go standard library that
  \<^verbatim>\<open>envflag.go\<close> calls. \<open>ToUpper\<close> and \<open>Quote\<close> are exact on ASCII text; bytes from
  128 on (parts of multi-byte UTF-8 runes) are left as they are.
\<close>

definition upper_byte :: "char \<Rightarrow> char" where
  "upper_byte c =
     (let n = (of_char c :: nat) in if 97 \<le> n \<and> n \<le> 122 then char_of (n - 32) else c)"

text \<open>\<^verbatim>\<open>strings.ToUpper\<close>.\<close>

definition ToUpper :: "string \<Rightarrow> string" where
  "ToUpper s = map upper_byte s"

text \<open>\<^verbatim>\<open>strings.ReplaceAll(s, old, new)\<close> for a one-byte \<open>old\<close> and \<open>new\<close>.\<close>

definition ReplaceAll :: "string \<Rightarrow> char \<Rightarrow> char \<Rightarrow> string" where
  "ReplaceAll s old new = map (\<lambda>c. if c = old then new else c) s"

text \<open>\<^verbatim>\<open>strings.HasPrefix(s, prefix)\<close>.\<close>

fun HasPrefix :: "string \<Rightarrow> string \<Rightarrow> bool" where
  "HasPrefix s [] = True"
| "HasPrefix [] (p # ps) = False"
| "HasPrefix (c # s) (p # ps) = (c = p \<and> HasPrefix s ps)"

text \<open>\<^verbatim>\<open>strings.Contains(s, substr)\<close>.\<close>

fun Contains :: "string \<Rightarrow> string \<Rightarrow> bool" where
  "Contains [] sub = (sub = [])"
| "Contains (c # s) sub = (HasPrefix (c # s) sub \<or> Contains s sub)"

text \<open>
  \<^verbatim>\<open>strings.Split(s, sep)\<close> for a one-byte separator. The result is never empty: its
  first element is the text before the first separator (all of \<open>s\<close> when there is none).
\<close>

fun Split :: "string \<Rightarrow> char \<Rightarrow> string list" where
  "Split [] sep = [[]]"
| "Split (c # s) sep =
     (if c = sep then [] # Split s sep
      else (case Split s sep of [] \<Rightarrow> [[c]] | w # ws \<Rightarrow> (c # w) # ws))"

text \<open>\<^verbatim>\<open>strings.Join(elems, sep)\<close>.\<close>

fun Join :: "string list \<Rightarrow> string \<Rightarrow> string" where
  "Join [] sep = []"
| "Join [x] sep = x"
| "Join (x # y # ys) sep = x @ sep @ Join (y # ys) sep"

text \<open>
  \<^verbatim>\<open>strconv.Quote\<close>, which \<^verbatim>\<open>fmt\<close> applies for the verb \<^verbatim>\<open>%q\<close>: the text is put in double
  quotes; a double quote and a backslash get a backslash in front, the control
  characters their escape sequences.
\<close>

definition hex_digit :: "nat \<Rightarrow> char" where
  "hex_digit n = ''0123456789abcdef'' ! (n mod 16)"

definition quote_byte :: "char \<Rightarrow> string" where
  "quote_byte c =
     (let n = (of_char c :: nat) in
      if n = 34 \<or> n = 92 then [CHR 0x5C, c]
      else if 32 \<le> n \<and> n < 127 then [c]
      else if n = 7 then [CHR 0x5C, CHR ''a'']
      else if n = 8 then [CHR 0x5C, CHR ''b'']
      else if n = 12 then [CHR 0x5C, CHR ''f'']
      else if n = 10 then [CHR 0x5C, CHR ''n'']
      else if n = 13 then [CHR 0x5C, CHR ''r'']
      else if n = 9 then [CHR 0x5C, CHR ''t'']
      else if n = 11 then [CHR 0x5C, CHR ''v'']
      else if n < 32 \<or> n = 127 then [CHR 0x5C, CHR ''x'', hex_digit (n div 16), hex_digit n]
      else [c])"

definition Quote :: "string \<Rightarrow> string" where
  "Quote s = [CHR 0x22] @ concat (map quote_byte s) @ [CHR 0x22]"

section \<open>The process environment\<close>

text \<open>
  The environment is the list of entries \<^verbatim>\<open>NAME=value\<close> that \<^verbatim>\<open>os.Environ\<close> returns.
  \<^verbatim>\<open>os.LookupEnv\<close> finds no variable for the empty name; otherwise it returns the text
  after the first \<^verbatim>\<open>=\<close> of the first entry whose text before the first \<^verbatim>\<open>=\<close> is the name
  (an entry without \<^verbatim>\<open>=\<close> is not a variable).
\<close>

type_synonym environ = "string list"

definition Environ :: "environ \<Rightarrow> string list" where
  "Environ env = env"

fun lookup_entry :: "environ \<Rightarrow> string \<Rightarrow> string option" where
  "lookup_entry [] key = None"
| "lookup_entry (e # es) key =
     (if CHR ''='' \<in> set e \<and> takeWhile (\<lambda>c. c \<noteq> CHR ''='') e = key
      then Some (tl (dropWhile (\<lambda>c. c \<noteq> CHR ''='') e))
      else lookup_entry es key)"

definition LookupEnv :: "environ \<Rightarrow> string \<Rightarrow> string option" where
  "LookupEnv env key = (if key = [] then None else lookup_entry env key)"

section \<open>Prefix\<close>

record Prefix =
  prefix :: string
  strict :: bool

type_synonym Option = "Prefix \<Rightarrow> Prefix"

text \<open>\<^verbatim>\<open>NewPrefix\<close>: the options are applied in order to a non-strict prefix.\<close>

definition NewPrefix :: "string \<Rightarrow> Option list \<Rightarrow> Prefix" where
  "NewPrefix s opts = fold (\<lambda>opt p. opt p) opts \<lparr>prefix = s, strict = False\<rparr>"

definition Strict :: "bool \<Rightarrow> Option" where
  "Strict b = (\<lambda>p. p\<lparr>strict := b\<rparr>)"

definition NoPrefix :: Prefix where
  "NoPrefix = NewPrefix [] []"

text \<open>
  \<^verbatim>\<open>Prefix.envName\<close>: the flag name is upper-cased, the prefix and an underscore are put
  in front when the prefix is not empty, and only then are the hyphens replaced, in the
  whole string.
\<close>

definition envName :: "Prefix \<Rightarrow> string \<Rightarrow> string" where
  "envName p flagName =
     (let s = ToUpper flagName;
          s = (if prefix p \<noteq> [] then prefix p @ ''_'' @ s else s)
      in ReplaceAll s CHR ''-'' CHR ''_'')"

section \<open>Flags and flag sets\<close>

text \<open>
  A \<^verbatim>\<open>flag.Flag\<close> has a name, a usage text and a \<^verbatim>\<open>flag.Value\<close>: an interface value, that
  is a pointer to a variable together with the methods \<^verbatim>\<open>String\<close> and \<^verbatim>\<open>Set\<close> of its
  dynamic type. The variables live in a heap, so that two flags may be registered on one
  variable. \<^verbatim>\<open>Set\<close> returns the new content of the variable (which it may have changed
  also when it fails) and the error, if any; \<^verbatim>\<open>String\<close> only reads the variable. The
  methods of a flag read and write the variable of this flag only.
\<close>

type_synonym addr = nat

record 'v Flag =
  Name :: string
  Usage :: string
  Value :: addr
  ValueString :: "'v \<Rightarrow> string"
  ValueSet :: "string \<Rightarrow> 'v \<Rightarrow> 'v \<times> string option"

datatype ErrorHandling = ContinueOnError | ExitOnError | PanicOnError

text \<open>
  A \<^verbatim>\<open>flag.FlagSet\<close>: \<open>formal\<close> holds the registered flags in the order in which
  \<^verbatim>\<open>VisitAll\<close> visits them, \<open>out\<close> the text written so far to \<^verbatim>\<open>Output()\<close>.
\<close>

record 'v FlagSet =
  name :: string
  parsed :: bool
  formal :: "'v Flag list"
  errorHandling :: ErrorHandling
  out :: string
  heap :: "addr \<Rightarrow> 'v"

section \<open>Errors\<close>

datatype error =
    ErrParsed
  | ErrInvalidValue string string string
  | ErrNotDefined string

text \<open>The message of each error, as \<^verbatim>\<open>fmt.Errorf\<close> formats it.\<close>

fun Error :: "error \<Rightarrow> string" where
  "Error ErrParsed = ''envflag.Bind() must be called before flag.Parse()''"
| "Error (ErrInvalidValue envValue e reason) =
     ''invalid value '' @ Quote envValue @ '' for environment variable '' @ e @ '': '' @ reason"
| "Error (ErrNotDefined n) =
     ''environment variable provided but corresponding flag not defined: '' @ n"

section \<open>bind\<close>

definition updateUsage :: "'v Flag \<Rightarrow> Prefix list \<Rightarrow> 'v Flag" where
  "updateUsage f prefixes =
     (let envs = map (\<lambda>p. envName p (Name f)) prefixes
      in f\<lparr>Usage := Usage f @ '' ['' @ Join envs '', '' @ '']''\<rparr>)"

text \<open>The variables that the closure passed to \<^verbatim>\<open>VisitAll\<close> updates.\<close>

record 'v visit =
  matchedEnvValues :: "string \<Rightarrow> bool"
  visitErr :: "error option"
  vars :: "addr \<Rightarrow> 'v"

text \<open>
  The body of the loop over the prefixes, for the flag \<open>f\<close> and the prefix \<open>p\<close>. After a
  failed \<^verbatim>\<open>Set\<close> the variable is set again, to the text that \<^verbatim>\<open>String\<close> gave before, and
  the error of this second \<^verbatim>\<open>Set\<close> is dropped. The call of \<^verbatim>\<open>String\<close> that ends the body
  has no effect.
\<close>

definition visit_prefix :: "environ \<Rightarrow> 'v Flag \<Rightarrow> Prefix \<Rightarrow> 'v visit \<Rightarrow> 'v visit" where
  "visit_prefix env f p st =
     (let e = envName p (Name f) in
      case LookupEnv env e of
        None \<Rightarrow> st
      | Some envValue \<Rightarrow>
          (let st1 = st\<lparr>matchedEnvValues := (matchedEnvValues st)(e := True)\<rparr>;
               prevValue = ValueString f (vars st1 (Value f));
               (v1, err) = ValueSet f envValue (vars st1 (Value f))
           in case err of
                None \<Rightarrow> st1\<lparr>vars := (vars st1)(Value f := v1)\<rparr>
              | Some reason \<Rightarrow>
                  st1\<lparr>visitErr := Some (ErrInvalidValue envValue e reason),
                      vars := (vars st1)(Value f := fst (ValueSet f prevValue v1))\<rparr>))"

fun visit_prefixes ::
  "environ \<Rightarrow> 'v Flag \<Rightarrow> Prefix list \<Rightarrow> 'v visit \<Rightarrow> 'v visit" where
  "visit_prefixes env f [] st = st"
| "visit_prefixes env f (p # ps) st = visit_prefixes env f ps (visit_prefix env f p st)"

text \<open>\<^verbatim>\<open>flagSet.VisitAll\<close> applied to the closure of \<^verbatim>\<open>bind\<close>.\<close>

fun VisitAll ::
  "environ \<Rightarrow> Prefix list \<Rightarrow> 'v Flag list \<Rightarrow> 'v visit \<Rightarrow> 'v Flag list \<times> 'v visit" where
  "VisitAll env prefixes [] st = ([], st)"
| "VisitAll env prefixes (f # fs) st =
     (let f' = updateUsage f prefixes;
          st' = visit_prefixes env f' prefixes st;
          (fs', st'') = VisitAll env prefixes fs st'
      in (f' # fs', st''))"

text \<open>The loops over \<^verbatim>\<open>os.Environ()\<close> and the prefixes that follow the visit.\<close>

fun strict_prefixes :: "(string \<Rightarrow> bool) \<Rightarrow> string \<Rightarrow> Prefix list \<Rightarrow> error option" where
  "strict_prefixes matched e [] = None"
| "strict_prefixes matched e (p # ps) =
     (if \<not> strict p then strict_prefixes matched e ps
      else (let n = hd (Split e CHR ''='') in
            if HasPrefix e (prefix p) \<and> \<not> matched n
            then Some (ErrNotDefined (hd (Split e CHR ''='')))
            else strict_prefixes matched e ps))"

fun strict_environ :: "(string \<Rightarrow> bool) \<Rightarrow> string list \<Rightarrow> Prefix list \<Rightarrow> error option" where
  "strict_environ matched [] prefixes = None"
| "strict_environ matched (e # es) prefixes =
     (case strict_prefixes matched e prefixes of
        Some err \<Rightarrow> Some err
      | None \<Rightarrow> strict_environ matched es prefixes)"

definition bind :: "environ \<Rightarrow> 'v FlagSet \<Rightarrow> Prefix list \<Rightarrow> 'v FlagSet \<times> error option" where
  "bind env flagSet prefixes0 =
     (let prefixes = (if length prefixes0 = 0 then [NoPrefix] else prefixes0) in
      if parsed flagSet then (flagSet, Some ErrParsed)
      else
        (let (fl, st) = VisitAll env prefixes (formal flagSet)
                          \<lparr>matchedEnvValues = (\<lambda>_. False), visitErr = None, vars = heap flagSet\<rparr>;
             flagSet' = flagSet\<lparr>formal := fl, heap := vars st\<rparr>
         in case visitErr st of
              Some err \<Rightarrow> (flagSet', Some err)
            | None \<Rightarrow> (flagSet', strict_environ (matchedEnvValues st) (Environ env) prefixes)))"

section \<open>BindFlagSet and Bind\<close>

text \<open>
  A call ends by returning, by a panic or by the end of the process. The variable
  \<^verbatim>\<open>exit\<close> holds a function: it either ends the process with a status or returns, having
  changed the state \<open>'w\<close> of its surroundings. \<^verbatim>\<open>flagSet.PrintDefaults\<close> is a parameter: the
  text that it writes for a flag set. Of the three values of \<^verbatim>\<open>flag.ErrorHandling\<close>,
  \<open>ExitOnError\<close> is the one that the default branch of the switch handles; when \<^verbatim>\<open>exit\<close>
  returns, so does \<^verbatim>\<open>BindFlagSet\<close>, with no error.
\<close>

datatype 'r outcome = Return 'r | Panic error | Exit nat

type_synonym 'w exit_hook = "'w \<Rightarrow> nat + 'w"

definition os_Exit_2 :: "'w exit_hook" where
  "os_Exit_2 w = Inl 2"

definition Fprint :: "'v FlagSet \<Rightarrow> string \<Rightarrow> 'v FlagSet" where
  "Fprint flagSet s = flagSet\<lparr>out := out flagSet @ s\<rparr>"

definition BindFlagSet ::
  "('v FlagSet \<Rightarrow> string) \<Rightarrow> 'w exit_hook \<Rightarrow> environ \<Rightarrow> 'v FlagSet \<Rightarrow> Prefix list \<Rightarrow> 'w
     \<Rightarrow> error option outcome \<times> 'v FlagSet \<times> 'w" where
  "BindFlagSet PrintDefaults exit env flagSet prefixes w =
     (case bind env flagSet prefixes of
        (fs, None) \<Rightarrow> (Return None, fs, w)
      | (fs, Some err) \<Rightarrow>
          (case errorHandling fs of
             ContinueOnError \<Rightarrow> (Return (Some err), fs, w)
           | PanicOnError \<Rightarrow> (Panic err, fs, w)
           | ExitOnError \<Rightarrow>
               (let fs1 = Fprint fs (Error err @ [CHR 0x0A]);
                    fs2 = (if name fs1 = [] then Fprint fs1 (''Usage:'' @ [CHR 0x0A])
                           else Fprint fs1 (''Usage of '' @ name fs1 @ '':'' @ [CHR 0x0A]));
                    fs3 = Fprint fs2 (PrintDefaults fs2)
                in case exit w of
                     Inl status \<Rightarrow> (Exit status, fs3, w)
                   | Inr w' \<Rightarrow> (Return None, fs3, w'))))"

text \<open>\<^verbatim>\<open>Bind\<close>, with \<^verbatim>\<open>flag.CommandLine\<close> as a parameter; it has no result.\<close>

definition Bind ::
  "('v FlagSet \<Rightarrow> string) \<Rightarrow> 'w exit_hook \<Rightarrow> environ \<Rightarrow> 'v FlagSet \<Rightarrow> Prefix list \<Rightarrow> 'w
     \<Rightarrow> unit outcome \<times> 'v FlagSet \<times> 'w" where
  "Bind PrintDefaults exit env CommandLine prefixes w =
     (case BindFlagSet PrintDefaults exit env CommandLine prefixes w of
        (Return _, fs, w') \<Rightarrow> (Return (), fs, w')
      | (Panic err, fs, w') \<Rightarrow> (Panic err, fs, w')
      | (Exit status, fs, w') \<Rightarrow> (Exit status, fs, w'))"

section \<open>Example flag sets\<close>

text \<open>
  Two kinds of \<^verbatim>\<open>flag.Value\<close> for the examples: one that accepts every text, as the
  value of \<^verbatim>\<open>FlagSet.String\<close> does, and one that accepts unsigned decimal numerals only
  and fails with \<^verbatim>\<open>parse error\<close> otherwise. Both keep the text they were set to.
\<close>

definition string_flag :: "string \<Rightarrow> string \<Rightarrow> addr \<Rightarrow> string Flag" where
  "string_flag n u a =
     \<lparr>Name = n, Usage = u, Value = a, ValueString = (\<lambda>v. v), ValueSet = (\<lambda>s v. (s, None))\<rparr>"

definition digits_flag :: "string \<Rightarrow> string \<Rightarrow> addr \<Rightarrow> string Flag" where
  "digits_flag n u a =
     \<lparr>Name = n, Usage = u, Value = a, ValueString = (\<lambda>v. v),
      ValueSet = (\<lambda>s v. if s \<noteq> [] \<and> list_all (\<lambda>c. c \<in> set ''0123456789'') s
                         then (s, None) else (v, Some ''parse error''))\<rparr>"

text \<open>The flag set of the tests: the flag \<^verbatim>\<open>my-var\<close> with the value \<^verbatim>\<open>default value\<close>.\<close>

definition test_fs :: "string FlagSet" where
  "test_fs =
     \<lparr>name = ''test'', parsed = False,
      formal = [string_flag ''my-var'' ''This is a flag.'' 0],
      errorHandling = ContinueOnError, out = [], heap = (\<lambda>_. ''default value'')\<rparr>"

text \<open>The flag set of the test with a bad value: the flag \<^verbatim>\<open>int-var\<close> with the value 20.\<close>

definition int_fs :: "string FlagSet" where
  "int_fs =
     \<lparr>name = ''test'', parsed = False,
      formal = [digits_flag ''int-var'' ''an int flag.'' 0],
      errorHandling = ContinueOnError, out = [], heap = (\<lambda>_. ''20'')\<rparr>"

text \<open>A flag set with two flags that accept numerals only.\<close>

definition two_fs :: "string FlagSet" where
  "two_fs =
     \<lparr>name = ''test'', parsed = False,
      formal = [digits_flag ''alpha'' ''the first number.'' 0,
                digits_flag ''beta'' ''the second number.'' 1],
      errorHandling = ContinueOnError, out = [], heap = (\<lambda>_. ''0'')\<rparr>"

text \<open>
  A \<^verbatim>\<open>flag.Value\<close> that appends every accepted numeral to its text, as the value of a
  flag that may be given several times does.
\<close>

definition append_flag :: "string \<Rightarrow> string \<Rightarrow> addr \<Rightarrow> string Flag" where
  "append_flag n u a =
     \<lparr>Name = n, Usage = u, Value = a, ValueString = (\<lambda>v. v),
      ValueSet = (\<lambda>s v. if s \<noteq> [] \<and> list_all (\<lambda>c. c \<in> set ''0123456789'') s
                         then (v @ s, None) else (v, Some ''parse error''))\<rparr>"

definition append_fs :: "string FlagSet" where
  "append_fs =
     \<lparr>name = ''test'', parsed = False,
      formal = [append_flag ''digits'' ''more digits.'' 0],
      errorHandling = ContinueOnError, out = [], heap = (\<lambda>_. ''12'')\<rparr>"

text \<open>Two flags that are registered on one variable.\<close>

definition shared_fs :: "string FlagSet" where
  "shared_fs =
     \<lparr>name = ''test'', parsed = False,
      formal = [string_flag ''name'' ''the name.'' 0, string_flag ''nickname'' ''the name again.'' 0],
      errorHandling = ContinueOnError, out = [], heap = (\<lambda>_. [])\<rparr>"

text \<open>A flag set without flags that has parsed its arguments.\<close>

definition parsed_fs :: "ErrorHandling \<Rightarrow> string FlagSet" where
  "parsed_fs eh =
     \<lparr>name = ''test'', parsed = True, formal = [], errorHandling = eh, out = [],
      heap = (\<lambda>_. [])\<rparr>"

text \<open>A listing of the flags that stands for \<^verbatim>\<open>PrintDefaults\<close> in the examples.\<close>

definition list_defaults :: "'v FlagSet \<Rightarrow> string" where
  "list_defaults fs =
     concat (map (\<lambda>f. ''  -'' @ Name f @ [CHR 0x0A, CHR 0x09] @ Usage f @ [CHR 0x0A]) (formal fs))"

section \<open>Evaluation and basic facts\<close>

lemmas eval_defs =
  bind_def BindFlagSet_def Bind_def Fprint_def visit_prefix_def updateUsage_def
  LookupEnv_def Environ_def envName_def NoPrefix_def NewPrefix_def Strict_def
  ToUpper_def ReplaceAll_def upper_byte_def char_of_def bit_0 Quote_def quote_byte_def
  hex_digit_def os_Exit_2_def Let_def split_def

lemma visit_prefix_updateUsage [simp]:
  "visit_prefix env (updateUsage f ps) p st = visit_prefix env f p st"
  by (simp add: visit_prefix_def updateUsage_def Let_def split_def cong: option.case_cong)

lemma visit_prefixes_updateUsage [simp]:
  "visit_prefixes env (updateUsage f ps) qs st = visit_prefixes env f qs st"
  by (induction qs arbitrary: st) simp_all

lemma VisitAll_fst:
  "fst (VisitAll env ps fl st) = map (\<lambda>f. updateUsage f ps) fl"
  by (induction fl arbitrary: st) (simp_all add: split_def Let_def)

lemma VisitAll_snd:
  "snd (VisitAll env ps fl st) = fold (\<lambda>f. visit_prefixes env f ps) fl st"
  by (induction fl arbitrary: st) (simp_all add: split_def Let_def)

lemma NoPrefix_eq: "NoPrefix = \<lparr>prefix = [], strict = False\<rparr>"
  by (simp add: NoPrefix_def NewPrefix_def)

lemma bind_parsed: "parsed fs \<Longrightarrow> bind env fs ps = (fs, Some ErrParsed)"
  by (simp add: bind_def)

text \<open>
  On a flag set that has not parsed, \<open>bind\<close> visits every flag with the prefixes
  (the default prefix when none is given) and then checks the strict prefixes.
\<close>

lemma bind_unparsed:
  "\<not> parsed fs \<Longrightarrow>
   bind env fs ps =
     (let prefixes = (if ps = [] then [NoPrefix] else ps);
          st = fold (\<lambda>f. visit_prefixes env f prefixes) (formal fs)
                 \<lparr>matchedEnvValues = (\<lambda>_. False), visitErr = None, vars = heap fs\<rparr>;
          fs' = fs\<lparr>formal := map (\<lambda>f. updateUsage f prefixes) (formal fs), heap := vars st\<rparr>
      in (fs', case visitErr st of Some err \<Rightarrow> Some err
               | None \<Rightarrow> strict_environ (matchedEnvValues st) env prefixes))"
  unfolding bind_def Let_def
  by (simp add: split_def VisitAll_fst VisitAll_snd Environ_def split: option.splits)

lemma bind_out: "out (fst (bind env fs ps)) = out fs"
  by (cases "parsed fs") (simp_all add: bind_parsed bind_unparsed Let_def)

lemma bind_name: "name (fst (bind env fs ps)) = name fs"
  by (cases "parsed fs") (simp_all add: bind_parsed bind_unparsed Let_def)

lemma bind_errorHandling: "errorHandling (fst (bind env fs ps)) = errorHandling fs"
  by (cases "parsed fs") (simp_all add: bind_parsed bind_unparsed Let_def)

section \<open>The visit of the flags\<close>

text \<open>One step of the visit: the variable is absent, its value is accepted, or rejected.\<close>

lemma visit_prefix_None:
  "LookupEnv env (envName p (Name f)) = None \<Longrightarrow> visit_prefix env f p st = st"
  by (simp add: visit_prefix_def)

lemma visit_prefix_accept:
  "LookupEnv env (envName p (Name f)) = Some v \<Longrightarrow>
   snd (ValueSet f v (vars st (Value f))) = None \<Longrightarrow>
   visit_prefix env f p st =
     st\<lparr>matchedEnvValues := (matchedEnvValues st)(envName p (Name f) := True),
        vars := (vars st)(Value f := fst (ValueSet f v (vars st (Value f))))\<rparr>"
  by (simp add: visit_prefix_def Let_def split_def)

lemma visit_prefix_reject:
  "LookupEnv env (envName p (Name f)) = Some v \<Longrightarrow>
   snd (ValueSet f v (vars st (Value f))) = Some r \<Longrightarrow>
   visit_prefix env f p st =
     st\<lparr>matchedEnvValues := (matchedEnvValues st)(envName p (Name f) := True),
        visitErr := Some (ErrInvalidValue v (envName p (Name f)) r),
        vars := (vars st)(Value f :=
                  fst (ValueSet f (ValueString f (vars st (Value f)))
                         (fst (ValueSet f v (vars st (Value f))))))\<rparr>"
  by (simp add: visit_prefix_def Let_def split_def)

lemma matched_visit_prefix_iff:
  "matchedEnvValues (visit_prefix env f p st) n \<longleftrightarrow>
     matchedEnvValues st n \<or> (n = envName p (Name f) \<and> LookupEnv env n \<noteq> None)"
  by (auto simp add: visit_prefix_def Let_def split_def split: option.splits)

lemma matched_visit_prefixes_iff:
  "matchedEnvValues (visit_prefixes env f ps st) n \<longleftrightarrow>
     matchedEnvValues st n \<or> (\<exists>p\<in>set ps. n = envName p (Name f) \<and> LookupEnv env n \<noteq> None)"
  by (induction ps arbitrary: st) (auto simp add: matched_visit_prefix_iff)

lemma matched_fold_iff:
  "matchedEnvValues (fold (\<lambda>f. visit_prefixes env f ps) fl st) n \<longleftrightarrow>
     matchedEnvValues st n \<or>
     (\<exists>f\<in>set fl. \<exists>p\<in>set ps. n = envName p (Name f) \<and> LookupEnv env n \<noteq> None)"
  by (induction fl arbitrary: st) (auto simp add: matched_visit_prefixes_iff)

lemma matched_fold_member:
  assumes "f \<in> set fl" and "p \<in> set ps" and "LookupEnv env (envName p (Name f)) = Some v"
  shows "matchedEnvValues (fold (\<lambda>f. visit_prefixes env f ps) fl st) (envName p (Name f))"
  unfolding matched_fold_iff
  apply (rule disjI2)
  apply (rule bexI [OF _ assms(1)])
  apply (rule bexI [OF _ assms(2)])
  apply (simp add: assms(3))
  done

lemma strict_prefixes_Some:
  "strict_prefixes m e ps = Some err \<longleftrightarrow>
     err = ErrNotDefined (hd (Split e CHR ''='')) \<and> \<not> m (hd (Split e CHR ''='')) \<and>
     (\<exists>p\<in>set ps. strict p \<and> HasPrefix e (prefix p))"
  by (induction ps) (auto simp add: Let_def)

lemma strict_environ_Some_D:
  "strict_environ m es ps = Some err \<Longrightarrow>
     \<exists>e\<in>set es. err = ErrNotDefined (hd (Split e CHR ''='')) \<and> \<not> m (hd (Split e CHR ''='')) \<and>
     (\<exists>p\<in>set ps. strict p \<and> HasPrefix e (prefix p))"
  by (induction es) (auto simp add: strict_prefixes_Some split: option.splits)

lemma strict_environ_None_iff:
  "strict_environ m es ps = None \<longleftrightarrow>
     (\<forall>e\<in>set es. \<forall>p\<in>set ps. strict p \<and> HasPrefix e (prefix p) \<longrightarrow> m (hd (Split e CHR ''='')))"
proof (induction es)
  case Nil
  then show ?case by simp
next
  case (Cons e es)
  have "strict_prefixes m e ps = None \<longleftrightarrow>
          (\<forall>p\<in>set ps. strict p \<and> HasPrefix e (prefix p) \<longrightarrow> m (hd (Split e CHR ''='')))"
    using strict_prefixes_Some [of m e ps] by (cases "strict_prefixes m e ps") auto
  with Cons show ?case by (auto split: option.splits)
qed

lemma visitErr_visit_prefix_NotDefined:
  "visitErr st \<noteq> Some (ErrNotDefined n) \<Longrightarrow>
   visitErr (visit_prefix env f p st) \<noteq> Some (ErrNotDefined n)"
  by (simp add: visit_prefix_def Let_def split_def split: option.splits)

lemma visitErr_visit_prefixes_NotDefined:
  "visitErr st \<noteq> Some (ErrNotDefined n) \<Longrightarrow>
   visitErr (visit_prefixes env f ps st) \<noteq> Some (ErrNotDefined n)"
  by (induction ps arbitrary: st) (simp_all add: visitErr_visit_prefix_NotDefined)

lemma visitErr_fold_NotDefined:
  "visitErr st \<noteq> Some (ErrNotDefined n) \<Longrightarrow>
   visitErr (fold (\<lambda>f. visit_prefixes env f ps) fl st) \<noteq> Some (ErrNotDefined n)"
  by (induction fl arbitrary: st) (simp_all add: visitErr_visit_prefixes_NotDefined)

lemma strict_environ_matched:
  "m n \<Longrightarrow> strict_environ m es ps \<noteq> Some (ErrNotDefined n)"
proof
  assume m: "m n" and "strict_environ m es ps = Some (ErrNotDefined n)"
  from strict_environ_Some_D [OF this(2)]
  obtain e where "ErrNotDefined n = ErrNotDefined (hd (Split e CHR ''=''))"
    and "\<not> m (hd (Split e CHR ''=''))"
    by blast
  with m show False by simp
qed

lemma bind_not_NotDefined_matched:
  assumes "f \<in> set (formal fs)" and "p \<in> set (if ps = [] then [NoPrefix] else ps)"
    and "LookupEnv env (envName p (Name f)) = Some v"
  shows "snd (bind env fs ps) \<noteq> Some (ErrNotDefined (envName p (Name f)))"
proof (cases "parsed fs")
  case True
  then show ?thesis by (simp add: bind_parsed)
next
  case False
  define eff where "eff = (if ps = [] then [NoPrefix] else ps)"
  define st where "st = fold (\<lambda>f. visit_prefixes env f eff) (formal fs)
               \<lparr>matchedEnvValues = (\<lambda>_. False), visitErr = None, vars = heap fs\<rparr>"
  have m: "matchedEnvValues st (envName p (Name f))"
    unfolding st_def using assms(1) assms(2) [folded eff_def] assms(3)
    by (rule matched_fold_member)
  have s: "strict_environ (matchedEnvValues st) env eff \<noteq> Some (ErrNotDefined (envName p (Name f)))"
    using m by (rule strict_environ_matched)
  have v: "visitErr st \<noteq> Some (ErrNotDefined (envName p (Name f)))"
    unfolding st_def by (rule visitErr_fold_NotDefined) simp
  have "snd (bind env fs ps) =
          (case visitErr st of Some err \<Rightarrow> Some err
           | None \<Rightarrow> strict_environ (matchedEnvValues st) env eff)"
    unfolding st_def eff_def using False by (simp add: bind_unparsed Let_def)
  with s v show ?thesis by (simp split: option.splits)
qed




lemma visit_prefixes_append:
  "visit_prefixes env f (xs @ ys) st = visit_prefixes env f ys (visit_prefixes env f xs st)"
  by (induction xs arbitrary: st) simp_all




text \<open>
  The error that the visit records: it is kept once it is there, it is an error of a
  rejected value, and the last rejected value determines it.
\<close>

lemma visitErr_visit_prefix_accepting:
  "(\<forall>u. LookupEnv env (envName q (Name g)) = Some u \<longrightarrow> (\<forall>s. snd (ValueSet g u s) = None)) \<Longrightarrow>
   visitErr (visit_prefix env g q st) = visitErr st"
  by (simp add: visit_prefix_def Let_def split_def split: option.splits)

lemma visitErr_visit_prefixes_accepting:
  "\<forall>q\<in>set qs. \<forall>u. LookupEnv env (envName q (Name g)) = Some u \<longrightarrow> (\<forall>s. snd (ValueSet g u s) = None) \<Longrightarrow>
   visitErr (visit_prefixes env g qs st) = visitErr st"
  by (induction qs arbitrary: st) (simp_all add: visitErr_visit_prefix_accepting)

lemma visitErr_fold_accepting:
  "\<forall>g\<in>set fl. \<forall>q\<in>set qs. \<forall>u. LookupEnv env (envName q (Name g)) = Some u \<longrightarrow>
      (\<forall>s. snd (ValueSet g u s) = None) \<Longrightarrow>
   visitErr (fold (\<lambda>f. visit_prefixes env f qs) fl st) = visitErr st"
  by (induction fl arbitrary: st) (simp_all add: visitErr_visit_prefixes_accepting)

lemma visitErr_visit_prefix_kept:
  "visitErr st = Some e \<Longrightarrow> \<exists>e'. visitErr (visit_prefix env g q st) = Some e'"
  by (simp add: visit_prefix_def Let_def split_def split: option.splits)

lemma visitErr_visit_prefixes_kept:
  "visitErr st = Some e \<Longrightarrow> \<exists>e'. visitErr (visit_prefixes env g qs st) = Some e'"
proof (induction qs arbitrary: st e)
  case Nil
  then show ?case by simp
next
  case (Cons q qs)
  from visitErr_visit_prefix_kept [OF Cons.prems]
  obtain e' where "visitErr (visit_prefix env g q st) = Some e'" ..
  from Cons.IH [OF this] show ?case by simp
qed

lemma visitErr_fold_kept:
  "visitErr st = Some e \<Longrightarrow> \<exists>e'. visitErr (fold (\<lambda>f. visit_prefixes env f qs) fl st) = Some e'"
proof (induction fl arbitrary: st e)
  case Nil
  then show ?case by simp
next
  case (Cons g fl)
  from visitErr_visit_prefixes_kept [OF Cons.prems]
  obtain e' where "visitErr (visit_prefixes env g qs st) = Some e'" ..
  from Cons.IH [OF this] show ?case by simp
qed

lemma visitErr_visit_prefix_cases:
  "visitErr (visit_prefix env g q st) = visitErr st \<or>
   (\<exists>u r s. LookupEnv env (envName q (Name g)) = Some u \<and> snd (ValueSet g u s) = Some r \<and>
      visitErr (visit_prefix env g q st) = Some (ErrInvalidValue u (envName q (Name g)) r))"
proof (cases "LookupEnv env (envName q (Name g))")
  case None
  then show ?thesis by (simp add: visit_prefix_None)
next
  case (Some u)
  show ?thesis
  proof (cases "snd (ValueSet g u (vars st (Value g)))")
    case None
    with Some show ?thesis by (simp add: visit_prefix_accept)
  next
    case (Some r)
    with \<open>LookupEnv env (envName q (Name g)) = Some u\<close>
    have "visitErr (visit_prefix env g q st) = Some (ErrInvalidValue u (envName q (Name g)) r)"
      by (simp add: visit_prefix_reject)
    with Some \<open>LookupEnv env (envName q (Name g)) = Some u\<close> show ?thesis by blast
  qed
qed

lemma visitErr_visit_prefix_inv:
  assumes "\<And>err. visitErr st = Some err \<Longrightarrow> Q err"
    and "\<And>u r s. LookupEnv env (envName q (Name g)) = Some u \<Longrightarrow> snd (ValueSet g u s) = Some r \<Longrightarrow>
           Q (ErrInvalidValue u (envName q (Name g)) r)"
    and "visitErr (visit_prefix env g q st) = Some err"
  shows "Q err"
  using visitErr_visit_prefix_cases [of env g q st]
proof
  assume "visitErr (visit_prefix env g q st) = visitErr st"
  with assms(3) have "visitErr st = Some err" by simp
  then show ?thesis by (rule assms(1))
next
  assume "\<exists>u r s. LookupEnv env (envName q (Name g)) = Some u \<and> snd (ValueSet g u s) = Some r \<and>
      visitErr (visit_prefix env g q st) = Some (ErrInvalidValue u (envName q (Name g)) r)"
  then obtain u r s where "LookupEnv env (envName q (Name g)) = Some u"
    and "snd (ValueSet g u s) = Some r"
    and "visitErr (visit_prefix env g q st) = Some (ErrInvalidValue u (envName q (Name g)) r)"
    by blast
  with assms(2) [of u s r] assms(3) show ?thesis by simp
qed

lemma visitErr_visit_prefixes_inv:
  assumes "\<And>err. visitErr st = Some err \<Longrightarrow> Q err"
    and "\<And>q u r s. q \<in> set qs \<Longrightarrow> LookupEnv env (envName q (Name g)) = Some u \<Longrightarrow>
           snd (ValueSet g u s) = Some r \<Longrightarrow> Q (ErrInvalidValue u (envName q (Name g)) r)"
    and "visitErr (visit_prefixes env g qs st) = Some err"
  shows "Q err"
  using assms
proof (induction qs arbitrary: st)
  case Nil
  then show ?case by simp
next
  case (Cons q qs)
  have step: "Q e" if "visitErr (visit_prefix env g q st) = Some e" for e
    using Cons.prems(1) _ that
  proof (rule visitErr_visit_prefix_inv)
    fix u r s
    assume "LookupEnv env (envName q (Name g)) = Some u" and "snd (ValueSet g u s) = Some r"
    then show "Q (ErrInvalidValue u (envName q (Name g)) r)"
      using Cons.prems(2) [of q u s r] by simp
  qed
  show ?case
  proof (rule Cons.IH [of "visit_prefix env g q st"])
    show "Q e" if "visitErr (visit_prefix env g q st) = Some e" for e
      using that by (rule step)
    show "Q (ErrInvalidValue u (envName q' (Name g)) r)"
      if "q' \<in> set qs" "LookupEnv env (envName q' (Name g)) = Some u" "snd (ValueSet g u s) = Some r"
      for q' u r s
      using Cons.prems(2) [of q' u s r] that by simp
    show "visitErr (visit_prefixes env g qs (visit_prefix env g q st)) = Some err"
      using Cons.prems(3) by simp
  qed
qed

lemma visitErr_fold_inv:
  assumes "\<And>err. visitErr st = Some err \<Longrightarrow> Q err"
    and "\<And>g q u r s. g \<in> set fl \<Longrightarrow> q \<in> set qs \<Longrightarrow> LookupEnv env (envName q (Name g)) = Some u \<Longrightarrow>
           snd (ValueSet g u s) = Some r \<Longrightarrow> Q (ErrInvalidValue u (envName q (Name g)) r)"
    and "visitErr (fold (\<lambda>f. visit_prefixes env f qs) fl st) = Some err"
  shows "Q err"
  using assms
proof (induction fl arbitrary: st)
  case Nil
  then show ?case by simp
next
  case (Cons g fl)
  have step: "Q e" if "visitErr (visit_prefixes env g qs st) = Some e" for e
    using Cons.prems(1) _ that
  proof (rule visitErr_visit_prefixes_inv)
    fix q u r s
    assume "q \<in> set qs" "LookupEnv env (envName q (Name g)) = Some u" "snd (ValueSet g u s) = Some r"
    then show "Q (ErrInvalidValue u (envName q (Name g)) r)"
      using Cons.prems(2) [of g q u s r] by simp
  qed
  show ?case
  proof (rule Cons.IH [of "visit_prefixes env g qs st"])
    show "Q e" if "visitErr (visit_prefixes env g qs st) = Some e" for e
      using that by (rule step)
    show "Q (ErrInvalidValue u (envName q (Name g')) r)"
      if "g' \<in> set fl" "q \<in> set qs" "LookupEnv env (envName q (Name g')) = Some u"
        "snd (ValueSet g' u s) = Some r"
      for g' q u r s
      using Cons.prems(2) [of g' q u s r] that by simp
    show "visitErr (fold (\<lambda>f. visit_prefixes env f qs) fl (visit_prefixes env g qs st)) = Some err"
      using Cons.prems(3) by simp
  qed
qed

lemma bind_visitErr:
  assumes "\<not> parsed fs"
    and "visitErr (fold (\<lambda>f. visit_prefixes env f (if ps = [] then [NoPrefix] else ps)) (formal fs)
            \<lparr>matchedEnvValues = (\<lambda>_. False), visitErr = None, vars = heap fs\<rparr>) = Some err"
  shows "snd (bind env fs ps) = Some err"
  using assms by (simp add: bind_unparsed Let_def)

lemma visit_prefix_rejecting:
  assumes "LookupEnv env (envName p (Name f)) = Some v" and "\<forall>s. snd (ValueSet f v s) = Some r"
  shows "visit_prefix env f p st =
     st\<lparr>matchedEnvValues := (matchedEnvValues st)(envName p (Name f) := True),
        visitErr := Some (ErrInvalidValue v (envName p (Name f)) r),
        vars := (vars st)(Value f :=
                  fst (ValueSet f (ValueString f (vars st (Value f)))
                         (fst (ValueSet f v (vars st (Value f))))))\<rparr>"
  using assms by (simp add: visit_prefix_reject)

lemma fold_rejected_Some:
  assumes "f \<in> set fl" and "p \<in> set qs"
    and "LookupEnv env (envName p (Name f)) = Some v" and "\<forall>s. snd (ValueSet f v s) = Some r"
  shows "\<exists>e. visitErr (fold (\<lambda>f. visit_prefixes env f qs) fl st) = Some e"
proof -
  from split_list [OF assms(1)] obtain fl1 fl2 where fl: "fl = fl1 @ f # fl2" by blast
  from split_list [OF assms(2)] obtain ps1 ps2 where qs: "qs = ps1 @ p # ps2" by blast
  define st1 where "st1 = fold (\<lambda>f. visit_prefixes env f qs) fl1 st"
  define st2 where "st2 = visit_prefixes env f ps1 st1"
  have "visitErr (visit_prefix env f p st2) = Some (ErrInvalidValue v (envName p (Name f)) r)"
    by (simp add: visit_prefix_rejecting [OF assms(3,4)])
  from visitErr_visit_prefixes_kept [OF this, of env f ps2]
  obtain e where "visitErr (visit_prefixes env f qs st1) = Some e"
    by (auto simp add: qs visit_prefixes_append st2_def)
  from visitErr_fold_kept [OF this, of env qs fl2]
  show ?thesis by (simp add: fl st1_def)
qed

lemma fold_last_rejected:
  assumes "fl = fl1 @ f # fl2" and "qs = ps1 @ p # ps2"
    and "LookupEnv env (envName p (Name f)) = Some v" and "\<forall>s. snd (ValueSet f v s) = Some r"
    and "\<forall>q\<in>set ps2. \<forall>u. LookupEnv env (envName q (Name f)) = Some u \<longrightarrow>
           (\<forall>s. snd (ValueSet f u s) = None)"
    and "\<forall>g\<in>set fl2. \<forall>q\<in>set qs. \<forall>u. LookupEnv env (envName q (Name g)) = Some u \<longrightarrow>
           (\<forall>s. snd (ValueSet g u s) = None)"
  shows "visitErr (fold (\<lambda>f. visit_prefixes env f qs) fl st)
           = Some (ErrInvalidValue v (envName p (Name f)) r)"
proof -
  define st1 where "st1 = fold (\<lambda>f. visit_prefixes env f qs) fl1 st"
  define st2 where "st2 = visit_prefixes env f ps1 st1"
  have "visitErr (fold (\<lambda>f. visit_prefixes env f qs) fl st)
          = visitErr (visit_prefixes env f qs st1)"
    by (simp add: assms(1) st1_def visitErr_fold_accepting [OF assms(6)])
  also have "\<dots> = visitErr (visit_prefix env f p st2)"
    by (simp add: assms(2) visit_prefixes_append st2_def
          visitErr_visit_prefixes_accepting [OF assms(5)])
  also have "\<dots> = Some (ErrInvalidValue v (envName p (Name f)) r)"
    by (simp add: visit_prefix_rejecting [OF assms(3,4)])
  finally show ?thesis .
qed

lemma fold_rejected_origin:
  assumes "visitErr (fold (\<lambda>f. visit_prefixes env f qs) fl
              \<lparr>matchedEnvValues = m, visitErr = None, vars = h\<rparr>) = Some err"
  shows "\<exists>v' e' r'. err = ErrInvalidValue v' e' r' \<and> LookupEnv env e' = Some v' \<and>
           (\<exists>g\<in>set fl. \<exists>q\<in>set qs. e' = envName q (Name g) \<and> (\<exists>s. snd (ValueSet g v' s) = Some r'))"
proof (rule visitErr_fold_inv [OF _ _ assms])
  fix err' :: error
  assume "visitErr \<lparr>matchedEnvValues = m, visitErr = None, vars = h\<rparr> = Some err'"
  then show "\<exists>v' e' r'. err' = ErrInvalidValue v' e' r' \<and> LookupEnv env e' = Some v' \<and>
           (\<exists>g\<in>set fl. \<exists>q\<in>set qs. e' = envName q (Name g) \<and> (\<exists>s. snd (ValueSet g v' s) = Some r'))"
    by simp
next
  fix g q u r s
  assume "g \<in> set fl" "q \<in> set qs" "LookupEnv env (envName q (Name g)) = Some u"
    "snd (ValueSet g u s) = Some r"
  then show "\<exists>v' e' r'. ErrInvalidValue u (envName q (Name g)) r = ErrInvalidValue v' e' r' \<and>
           LookupEnv env e' = Some v' \<and>
           (\<exists>g\<in>set fl. \<exists>q\<in>set qs. e' = envName q (Name g) \<and> (\<exists>s. snd (ValueSet g v' s) = Some r'))"
    by blast
qed

text \<open>The name of an entry, and prefixes without an equals sign.\<close>

lemma Split_not_Nil: "Split e c \<noteq> []"
  by (induction e) (simp_all split: list.splits)

lemma hd_Split: "hd (Split e c) = takeWhile (\<lambda>x. x \<noteq> c) e"
proof (induction e)
  case Nil
  then show ?case by simp
next
  case (Cons x e)
  then show ?case
    using Split_not_Nil [of e c] by (cases "Split e c") auto
qed

lemma HasPrefix_takeWhile:
  "c \<notin> set pre \<Longrightarrow> HasPrefix (takeWhile (\<lambda>x. x \<noteq> c) e) pre = HasPrefix e pre"
  by (induction e pre rule: HasPrefix.induct) auto

lemma HasPrefix_name:
  "CHR ''='' \<notin> set pre \<Longrightarrow> HasPrefix e pre = HasPrefix (hd (Split e CHR ''='')) pre"
  by (simp add: hd_Split HasPrefix_takeWhile)

section \<open>Name mapping\<close>

text \<open>
  C1 (as amended). The mapped name is the upper-cased flag name with every hyphen
  replaced by an underscore; when the prefix string is not empty, the prefix string with
  its own hyphens replaced by underscores (its letter case kept), followed by one
  underscore, is put in front.
\<close>

theorem envName_spec:
  "envName p f =
     (if prefix p = [] then [] else ReplaceAll (prefix p) CHR ''-'' CHR ''_'' @ ''_'')
       @ ReplaceAll (ToUpper f) CHR ''-'' CHR ''_''"
  by (simp add: envName_def ReplaceAll_def)

theorem envName_spec_witness:
  "envName \<lparr>prefix = ''my-App'', strict = False\<rparr> ''my-var'' = ''my_App_MY_VAR''"
  using envName_spec [of "\<lparr>prefix = ''my-App'', strict = False\<rparr>" "''my-var''"]
  by (simp add: ReplaceAll_def ToUpper_def upper_byte_def char_of_def bit_0)

text \<open>
  C1 as the specification states it (the prefix string used verbatim) fails for a prefix
  string that contains a hyphen.
\<close>

theorem envName_prefix_verbatim_counterexample:
  "envName \<lparr>prefix = ''my-app'', strict = False\<rparr> ''port''
     \<noteq> ''my-app'' @ ''_'' @ ReplaceAll (ToUpper ''port'') CHR ''-'' CHR ''_''"
  by (simp add: envName_def ReplaceAll_def ToUpper_def upper_byte_def char_of_def bit_0)

section \<open>No prefixes\<close>

text \<open>
  C5. With no prefix, \<open>bind\<close> gives the same result (the error, the values of the flags
  and their usage texts) as with the one prefix whose string is empty and which is not
  strict; so does \<open>BindFlagSet\<close>.
\<close>

theorem bind_no_prefixes:
  "bind env fs [] = bind env fs [\<lparr>prefix = [], strict = False\<rparr>]
   \<and> BindFlagSet pd ex env fs [] w = BindFlagSet pd ex env fs [\<lparr>prefix = [], strict = False\<rparr>] w"
  by (simp add: bind_def BindFlagSet_def NoPrefix_eq)

text \<open>The first test: \<^verbatim>\<open>MY_VAR\<close> is applied to \<^verbatim>\<open>my-var\<close> when no prefix is given.\<close>

theorem bind_no_prefixes_witness:
  "bind [''MY_VAR=env value''] test_fs [] = bind [''MY_VAR=env value''] test_fs [\<lparr>prefix = [], strict = False\<rparr>]
   \<and> heap (fst (bind [''MY_VAR=env value''] test_fs [])) 0 = ''env value''"
  using bind_no_prefixes [of "[''MY_VAR=env value'']" test_fs]
  by (simp add: eval_defs test_fs_def string_flag_def)

section \<open>Usage texts\<close>

text \<open>
  C6. After \<open>bind\<close> on a flag set that has not parsed, whatever the environment holds
  and whatever \<open>bind\<close> returns, every flag is the flag it was with the usage text
  extended by a space and, in brackets, the names of its environment variables under the
  prefixes, in the order of the prefixes and separated by a comma and a space. The
  prefixes are the given ones, or the default prefix when none is given.
\<close>

theorem bind_usage:
  "\<not> parsed fs \<Longrightarrow>
   formal (fst (bind env fs ps)) =
     map (\<lambda>f. f\<lparr>Usage := Usage f @ '' ['' @
            Join (map (\<lambda>p. envName p (Name f)) (if ps = [] then [NoPrefix] else ps)) '', '' @ '']''\<rparr>)
         (formal fs)"
  by (simp add: bind_unparsed Let_def updateUsage_def)

text \<open>The usage text of the test with two prefixes.\<close>

theorem bind_usage_witness:
  "map Usage (formal (fst (bind [] test_fs [NoPrefix, NewPrefix ''MYAPP'' [Strict True]])))
     = [''This is a flag. [MY_VAR, MYAPP_MY_VAR]'']"
  using bind_usage [of test_fs "[]" "[NoPrefix, NewPrefix ''MYAPP'' [Strict True]]"]
  by (simp add: eval_defs test_fs_def string_flag_def)

section \<open>A flag set that has parsed\<close>

text \<open>
  C7 (as amended). On a flag set that has parsed its arguments, \<open>bind\<close> returns the
  error of the wrong order and the flag set as it was. \<open>BindFlagSet\<close> treats this error
  as any other: it returns it under \<open>ContinueOnError\<close>, panics with it under
  \<open>PanicOnError\<close>, and otherwise prints it with the usage and calls \<open>exit\<close>.
\<close>

theorem bind_parsed_dispatch:
  "parsed fs \<Longrightarrow>
   bind env fs ps = (fs, Some ErrParsed) \<and>
   BindFlagSet pd ex env fs ps w =
     (case errorHandling fs of
        ContinueOnError \<Rightarrow> (Return (Some ErrParsed), fs, w)
      | PanicOnError \<Rightarrow> (Panic ErrParsed, fs, w)
      | ExitOnError \<Rightarrow>
          (let fs2 = fs\<lparr>out := out fs @ Error ErrParsed @ [CHR 0x0A] @
                         (if name fs = [] then ''Usage:'' else ''Usage of '' @ name fs @ '':'') @ [CHR 0x0A]\<rparr>;
               fs3 = fs2\<lparr>out := out fs2 @ pd fs2\<rparr>
           in case ex w of Inl status \<Rightarrow> (Exit status, fs3, w) | Inr w' \<Rightarrow> (Return None, fs3, w')))"
  by (simp add: bind_parsed BindFlagSet_def Fprint_def Let_def split: ErrorHandling.splits sum.splits)

theorem bind_parsed_dispatch_witness:
  "parsed (parsed_fs PanicOnError) \<and>
   BindFlagSet list_defaults os_Exit_2 [] (parsed_fs PanicOnError) [] ()
     = (Panic ErrParsed, parsed_fs PanicOnError, ())"
  using bind_parsed_dispatch [of "parsed_fs PanicOnError" "[]" "[]" list_defaults os_Exit_2 "()"]
  by (simp add: parsed_fs_def)

text \<open>
  C7 as the specification states it (the error is always returned to the caller) fails:
  with \<open>ExitOnError\<close>, as in \<^verbatim>\<open>TestBindErrorHandling\<close>, the process exits with status 2.
\<close>

theorem parsed_error_exits_counterexample:
  "fst (BindFlagSet list_defaults os_Exit_2 [] (parsed_fs ExitOnError) [] ()) = Exit 2
   \<and> fst (BindFlagSet list_defaults os_Exit_2 [] (parsed_fs ExitOnError) [] ()) \<noteq> Return (Some ErrParsed)"
  by (simp add: eval_defs parsed_fs_def list_defaults_def)

section \<open>The handling of errors\<close>

text \<open>
  C8. When \<open>bind\<close> returns no error, \<open>BindFlagSet\<close> returns none and neither writes
  nor exits. When \<open>bind\<close> returns an error: under \<open>ContinueOnError\<close> the error is
  returned and nothing is written; under \<open>PanicOnError\<close> the call panics with the error;
  otherwise the error, a line \<^verbatim>\<open>Usage of NAME:\<close> (\<^verbatim>\<open>Usage:\<close> for the empty name) and the
  listing of \<open>PrintDefaults\<close> are written to the output of the flag set, in this order,
  and then \<open>exit\<close> is called, which by default ends the process with status 2.
\<close>

theorem BindFlagSet_dispatch:
  "(snd (bind env fs ps) = None \<longrightarrow>
      BindFlagSet pd ex env fs ps w = (Return None, fst (bind env fs ps), w))
   \<and> (snd (bind env fs ps) = Some err \<and> errorHandling fs = ContinueOnError \<longrightarrow>
      BindFlagSet pd ex env fs ps w = (Return (Some err), fst (bind env fs ps), w)
      \<and> out (fst (bind env fs ps)) = out fs)
   \<and> (snd (bind env fs ps) = Some err \<and> errorHandling fs = PanicOnError \<longrightarrow>
      BindFlagSet pd ex env fs ps w = (Panic err, fst (bind env fs ps), w))
   \<and> (snd (bind env fs ps) = Some err \<and> errorHandling fs = ExitOnError \<longrightarrow>
      (let fs2 = (fst (bind env fs ps))
                   \<lparr>out := out fs @ Error err @ [CHR 0x0A] @
                      (if name fs = [] then ''Usage:'' else ''Usage of '' @ name fs @ '':'')
                      @ [CHR 0x0A]\<rparr>;
           fs3 = fs2\<lparr>out := out fs2 @ pd fs2\<rparr>
       in BindFlagSet pd ex env fs ps w =
            (case ex w of Inl status \<Rightarrow> (Exit status, fs3, w)
                        | Inr w' \<Rightarrow> (Return None, fs3, w'))
          \<and> BindFlagSet pd os_Exit_2 env fs ps w = (Exit 2, fs3, w)))"
proof -
  obtain fs' r where b: "bind env fs ps = (fs', r)"
    by (cases "bind env fs ps")
  have eh: "errorHandling fs' = errorHandling fs" and nm: "name fs' = name fs"
    and ou: "out fs' = out fs"
    using bind_errorHandling [of env fs ps] bind_name [of env fs ps] bind_out [of env fs ps]
    by (simp_all add: b)
  show ?thesis
    by (simp add: b BindFlagSet_def Fprint_def Let_def os_Exit_2_def eh nm ou
          split: sum.splits)
qed

text \<open>A strict prefix and a variable without a flag, under \<open>ExitOnError\<close>.\<close>

theorem BindFlagSet_dispatch_witness:
  "fst (BindFlagSet list_defaults os_Exit_2 [''MYAPP_BAD_VAR=value'']
          (test_fs\<lparr>errorHandling := ExitOnError\<rparr>) [NewPrefix ''MYAPP'' [Strict True]] ()) = Exit 2
   \<and> out (fst (snd (BindFlagSet list_defaults os_Exit_2 [''MYAPP_BAD_VAR=value'']
          (test_fs\<lparr>errorHandling := ExitOnError\<rparr>) [NewPrefix ''MYAPP'' [Strict True]] ())))
       = ''environment variable provided but corresponding flag not defined: MYAPP_BAD_VAR''
           @ [CHR 0x0A] @ ''Usage of test:'' @ [CHR 0x0A]
           @ ''  -my-var'' @ [CHR 0x0A, CHR 0x09] @ ''This is a flag. [MYAPP_MY_VAR]'' @ [CHR 0x0A]"
proof -
  have b: "bind [''MYAPP_BAD_VAR=value''] (test_fs\<lparr>errorHandling := ExitOnError\<rparr>)
             [NewPrefix ''MYAPP'' [Strict True]]
           = (test_fs\<lparr>errorHandling := ExitOnError,
                formal := [string_flag ''my-var'' ''This is a flag. [MYAPP_MY_VAR]'' 0]\<rparr>,
              Some (ErrNotDefined ''MYAPP_BAD_VAR''))"
    by (simp add: eval_defs test_fs_def string_flag_def list_defaults_def)
  show ?thesis
    using BindFlagSet_dispatch [of "[''MYAPP_BAD_VAR=value'']" "test_fs\<lparr>errorHandling := ExitOnError\<rparr>"
        "[NewPrefix ''MYAPP'' [Strict True]]" list_defaults os_Exit_2 "()" "ErrNotDefined ''MYAPP_BAD_VAR''"]
    unfolding b
    by (simp add: Let_def test_fs_def list_defaults_def string_flag_def os_Exit_2_def)
qed

section \<open>Bind\<close>

text \<open>
  C10. \<open>Bind\<close> has no result: it ends as \<open>BindFlagSet\<close> on \<^verbatim>\<open>flag.CommandLine\<close> ends, with
  the same effects, and drops the error that \<open>BindFlagSet\<close> returns. Under
  \<open>ContinueOnError\<close> it returns normally, writes nothing and does not call \<open>exit\<close>,
  whatever \<open>bind\<close> returned: the error is lost.
\<close>

theorem Bind_discards_error:
  "fst (Bind pd ex env fs ps w) =
     (case fst (BindFlagSet pd ex env fs ps w) of
        Return r \<Rightarrow> Return () | Panic err \<Rightarrow> Panic err | Exit status \<Rightarrow> Exit status)
   \<and> snd (Bind pd ex env fs ps w) = snd (BindFlagSet pd ex env fs ps w)
   \<and> (errorHandling fs = ContinueOnError \<longrightarrow>
        Bind pd ex env fs ps w = (Return (), fst (bind env fs ps), w)
        \<and> out (fst (bind env fs ps)) = out fs)"
proof (intro conjI impI)
  obtain o' fs' w' where r: "BindFlagSet pd ex env fs ps w = (o', fs', w')"
    by (cases "BindFlagSet pd ex env fs ps w")
  show "fst (Bind pd ex env fs ps w) =
     (case fst (BindFlagSet pd ex env fs ps w) of
        Return r \<Rightarrow> Return () | Panic err \<Rightarrow> Panic err | Exit status \<Rightarrow> Exit status)"
    by (cases o') (simp_all add: Bind_def r)
  show "snd (Bind pd ex env fs ps w) = snd (BindFlagSet pd ex env fs ps w)"
    by (cases o') (simp_all add: Bind_def r)
next
  assume c: "errorHandling fs = ContinueOnError"
  obtain fs' r where b: "bind env fs ps = (fs', r)"
    by (cases "bind env fs ps")
  have eh: "errorHandling fs' = ContinueOnError"
    using bind_errorHandling [of env fs ps] c by (simp add: b)
  have "Bind pd ex env fs ps w = (Return (), fs', w)"
    by (cases r) (simp_all add: Bind_def BindFlagSet_def b eh)
  then show "Bind pd ex env fs ps w = (Return (), fst (bind env fs ps), w)"
    by (simp add: b)
  show "out (fst (bind env fs ps)) = out fs"
    by (rule bind_out)
qed

text \<open>\<open>bind\<close> fails on a flag set that has parsed, and \<open>Bind\<close> just returns.\<close>

theorem Bind_discards_error_witness:
  "errorHandling (parsed_fs ContinueOnError) = ContinueOnError
   \<and> snd (bind [] (parsed_fs ContinueOnError) []) = Some ErrParsed
   \<and> Bind list_defaults os_Exit_2 [] (parsed_fs ContinueOnError) [] ()
       = (Return (), parsed_fs ContinueOnError, ())"
  using Bind_discards_error [of list_defaults os_Exit_2 "[]" "parsed_fs ContinueOnError" "[]" "()"]
  by (simp add: parsed_fs_def bind_def)

section \<open>Matched variables\<close>

text \<open>
  C9. One set of matched names serves all prefixes. When a variable is set whose name is
  the name of a registered flag under some prefix of the list (strict or not, and whether
  or not the flag accepted the value), the visit records the name as matched, the check
  of the strict prefixes never reports it, whatever entries and prefixes it runs over,
  and \<open>bind\<close> does not return the strict-violation error for that name.
\<close>

theorem matched_exempt:
  assumes "f \<in> set (formal fs)" and "p \<in> set (if ps = [] then [NoPrefix] else ps)"
    and "LookupEnv env (envName p (Name f)) = Some v"
  shows "matchedEnvValues
           (snd (VisitAll env (if ps = [] then [NoPrefix] else ps) (formal fs)
                   \<lparr>matchedEnvValues = (\<lambda>_. False), visitErr = None, vars = heap fs\<rparr>))
           (envName p (Name f))
         \<and> strict_environ
             (matchedEnvValues
               (snd (VisitAll env (if ps = [] then [NoPrefix] else ps) (formal fs)
                       \<lparr>matchedEnvValues = (\<lambda>_. False), visitErr = None, vars = heap fs\<rparr>)))
             es qs \<noteq> Some (ErrNotDefined (envName p (Name f)))
         \<and> snd (bind env fs ps) \<noteq> Some (ErrNotDefined (envName p (Name f)))"
proof -
  let ?st = "snd (VisitAll env (if ps = [] then [NoPrefix] else ps) (formal fs)
                   \<lparr>matchedEnvValues = (\<lambda>_. False), visitErr = None, vars = heap fs\<rparr>)"
  have m: "matchedEnvValues ?st (envName p (Name f))"
    unfolding VisitAll_snd by (rule matched_fold_member [OF assms])
  have "strict_environ (matchedEnvValues ?st) es qs \<noteq> Some (ErrNotDefined (envName p (Name f)))"
  proof
    assume "strict_environ (matchedEnvValues ?st) es qs = Some (ErrNotDefined (envName p (Name f)))"
    from strict_environ_Some_D [OF this] m show False by auto
  qed
  with m bind_not_NotDefined_matched [OF assms] show ?thesis by simp
qed

text \<open>
  \<^verbatim>\<open>MY_VAR\<close> begins with the strict prefix \<^verbatim>\<open>MY\<close>, but it is matched under the empty prefix.
\<close>

theorem matched_exempt_witness:
  "LookupEnv [''MY_VAR=x''] (envName NoPrefix ''my-var'') = Some ''x''
   \<and> HasPrefix ''MY_VAR=x'' (prefix (NewPrefix ''MY'' [Strict True]))
   \<and> snd (bind [''MY_VAR=x''] test_fs [NoPrefix, NewPrefix ''MY'' [Strict True]])
        \<noteq> Some (ErrNotDefined ''MY_VAR'')"
  using matched_exempt [of "string_flag ''my-var'' ''This is a flag.'' 0" test_fs NoPrefix
      "[NoPrefix, NewPrefix ''MY'' [Strict True]]" "[''MY_VAR=x'']" "''x''" "[]" "[]"]
  by (simp add: eval_defs test_fs_def string_flag_def)

section \<open>Several prefixes for one flag\<close>




text \<open>
  The condition on the variable is needed: of two flags on one variable, the one that is
  visited last decides.
\<close>

lemma shared_variable_example:
  "LookupEnv [''NAME=first'', ''NICKNAME=second''] (envName NoPrefix ''name'') = Some ''first''
   \<and> snd (bind [''NAME=first'', ''NICKNAME=second''] shared_fs []) = None
   \<and> heap (fst (bind [''NAME=first'', ''NICKNAME=second''] shared_fs [])) 0 = ''second''"
  by (simp add: eval_defs shared_fs_def string_flag_def)

section \<open>A rejected value\<close>

text \<open>
  C3 (as amended). Let the variable of the flag \<open>f\<close> under the prefix \<open>p\<close> be set to a
  value \<open>v\<close> that the setter of \<open>f\<close> rejects with the reason \<open>r\<close>. Then
  \<^item> the step for \<open>f\<close> and \<open>p\<close> marks the name as matched, records the error and sets the
    variable to the text that \<open>String\<close> gave before the failed \<open>Set\<close>; nothing else changes
    and the visit goes on from this state;
  \<^item> when \<open>Set\<close> brings back the old value from that text, the variables are as before;
  \<^item> \<open>bind\<close>, on a flag set that has not parsed, returns an error of a rejected value: its
    message is \<^verbatim>\<open>invalid value\<close>, the value quoted as by \<^verbatim>\<open>%q\<close>,
    \<^verbatim>\<open>for environment variable\<close>, the name, a colon and the reason;
  \<^item> the error is that of \<open>f\<close> and \<open>p\<close> when no value is rejected later in the visit: a
    later rejected value replaces it.
\<close>

theorem rejected_value:
  assumes "LookupEnv env (envName p (Name f)) = Some v"
    and "\<forall>s. snd (ValueSet f v s) = Some r"
  shows
    "(\<forall>st. visit_prefix env f p st =
         st\<lparr>matchedEnvValues := (matchedEnvValues st)(envName p (Name f) := True),
            visitErr := Some (ErrInvalidValue v (envName p (Name f)) r),
            vars := (vars st)(Value f :=
                      fst (ValueSet f (ValueString f (vars st (Value f)))
                             (fst (ValueSet f v (vars st (Value f))))))\<rparr>)
     \<and> (\<forall>st. fst (ValueSet f (ValueString f (vars st (Value f)))
                     (fst (ValueSet f v (vars st (Value f))))) = vars st (Value f)
            \<longrightarrow> vars (visit_prefix env f p st) = vars st)
     \<and> (\<not> parsed fs \<and> f \<in> set (formal fs) \<and> p \<in> set (if ps = [] then [NoPrefix] else ps)
          \<longrightarrow> (\<exists>v' e' r'. snd (bind env fs ps) = Some (ErrInvalidValue v' e' r')
                 \<and> Error (ErrInvalidValue v' e' r')
                     = ''invalid value '' @ Quote v' @ '' for environment variable '' @ e' @ '': '' @ r'
                 \<and> LookupEnv env e' = Some v'
                 \<and> (\<exists>g\<in>set (formal fs). \<exists>q\<in>set (if ps = [] then [NoPrefix] else ps).
                       e' = envName q (Name g) \<and> (\<exists>s. snd (ValueSet g v' s) = Some r'))))
     \<and> (\<not> parsed fs \<and> formal fs = fl1 @ f # fl2
          \<and> (if ps = [] then [NoPrefix] else ps) = ps1 @ p # ps2
          \<and> (\<forall>q\<in>set ps2. \<forall>u. LookupEnv env (envName q (Name f)) = Some u \<longrightarrow>
                (\<forall>s. snd (ValueSet f u s) = None))
          \<and> (\<forall>g\<in>set fl2. \<forall>q\<in>set (if ps = [] then [NoPrefix] else ps). \<forall>u.
                LookupEnv env (envName q (Name g)) = Some u \<longrightarrow> (\<forall>s. snd (ValueSet g u s) = None))
          \<longrightarrow> snd (bind env fs ps) = Some (ErrInvalidValue v (envName p (Name f)) r))"
proof (intro conjI allI impI)
  fix st :: "'a visit"
  show step: "visit_prefix env f p st =
         st\<lparr>matchedEnvValues := (matchedEnvValues st)(envName p (Name f) := True),
            visitErr := Some (ErrInvalidValue v (envName p (Name f)) r),
            vars := (vars st)(Value f :=
                      fst (ValueSet f (ValueString f (vars st (Value f)))
                             (fst (ValueSet f v (vars st (Value f))))))\<rparr>"
    by (rule visit_prefix_rejecting [OF assms])
  assume "fst (ValueSet f (ValueString f (vars st (Value f)))
                     (fst (ValueSet f v (vars st (Value f))))) = vars st (Value f)"
  then show "vars (visit_prefix env f p st) = vars st"
    by (simp add: step)
next
  define eff where "eff = (if ps = [] then [NoPrefix] else ps)"
  define st0 :: "'a visit" where
    "st0 = \<lparr>matchedEnvValues = (\<lambda>_. False), visitErr = None, vars = heap fs\<rparr>"
  assume a: "\<not> parsed fs \<and> f \<in> set (formal fs) \<and> p \<in> set (if ps = [] then [NoPrefix] else ps)"
  then have "\<exists>e. visitErr (fold (\<lambda>f. visit_prefixes env f eff) (formal fs) st0) = Some e"
    unfolding eff_def by (intro fold_rejected_Some [OF _ _ assms]) simp_all
  then obtain e where e: "visitErr (fold (\<lambda>f. visit_prefixes env f eff) (formal fs) st0) = Some e" ..
  from fold_rejected_origin [OF e [unfolded st0_def]]
  obtain v' e' r' where o: "e = ErrInvalidValue v' e' r'" "LookupEnv env e' = Some v'"
    "\<exists>g\<in>set (formal fs). \<exists>q\<in>set eff. e' = envName q (Name g) \<and> (\<exists>s. snd (ValueSet g v' s) = Some r')"
    by blast
  have "snd (bind env fs ps) = Some e"
    using a e [unfolded st0_def eff_def] by (intro bind_visitErr) simp_all
  with o show "\<exists>v' e' r'. snd (bind env fs ps) = Some (ErrInvalidValue v' e' r')
                 \<and> Error (ErrInvalidValue v' e' r')
                     = ''invalid value '' @ Quote v' @ '' for environment variable '' @ e' @ '': '' @ r'
                 \<and> LookupEnv env e' = Some v'
                 \<and> (\<exists>g\<in>set (formal fs). \<exists>q\<in>set (if ps = [] then [NoPrefix] else ps).
                       e' = envName q (Name g) \<and> (\<exists>s. snd (ValueSet g v' s) = Some r'))"
    unfolding eff_def by (intro exI [of _ v'] exI [of _ e'] exI [of _ r']) simp
next
  assume a: "\<not> parsed fs \<and> formal fs = fl1 @ f # fl2
          \<and> (if ps = [] then [NoPrefix] else ps) = ps1 @ p # ps2
          \<and> (\<forall>q\<in>set ps2. \<forall>u. LookupEnv env (envName q (Name f)) = Some u \<longrightarrow>
                (\<forall>s. snd (ValueSet f u s) = None))
          \<and> (\<forall>g\<in>set fl2. \<forall>q\<in>set (if ps = [] then [NoPrefix] else ps). \<forall>u.
                LookupEnv env (envName q (Name g)) = Some u \<longrightarrow> (\<forall>s. snd (ValueSet g u s) = None))"
  have "visitErr (fold (\<lambda>f. visit_prefixes env f (if ps = [] then [NoPrefix] else ps)) (formal fs)
            \<lparr>matchedEnvValues = (\<lambda>_. False), visitErr = None, vars = heap fs\<rparr>)
          = Some (ErrInvalidValue v (envName p (Name f)) r)"
    by (rule fold_last_rejected [OF _ _ assms]) (use a in blast)+
  with a show "snd (bind env fs ps) = Some (ErrInvalidValue v (envName p (Name f)) r)"
    by (intro bind_visitErr) simp_all
qed

text \<open>The test with \<^verbatim>\<open>INT_VAR=not-a-number\<close>: the error names the value, the flag keeps 20.\<close>

theorem rejected_value_witness:
  "LookupEnv [''INT_VAR=not-a-number''] (envName NoPrefix ''int-var'') = Some ''not-a-number''
   \<and> snd (bind [''INT_VAR=not-a-number''] int_fs [NoPrefix])
       = Some (ErrInvalidValue ''not-a-number'' ''INT_VAR'' ''parse error'')
   \<and> Error (ErrInvalidValue ''not-a-number'' ''INT_VAR'' ''parse error'')
       = ''invalid value '' @ [CHR 0x22] @ ''not-a-number'' @ [CHR 0x22]
           @ '' for environment variable INT_VAR: parse error''
   \<and> heap (fst (bind [''INT_VAR=not-a-number''] int_fs [NoPrefix])) 0 = ''20''"
  using rejected_value [of "[''INT_VAR=not-a-number'']" NoPrefix
      "digits_flag ''int-var'' ''an int flag.'' 0" "''not-a-number''" "''parse error''"
      int_fs "[NoPrefix]" "[]" "[]" "[]" "[]"]
  by (simp add: eval_defs int_fs_def digits_flag_def)

text \<open>
  C3 as the specification states it (for every flag with a rejected value the error
  holds that value and the name of its variable) fails with two rejected values: the
  error is that of the last one, it mentions neither \<^verbatim>\<open>ALPHA\<close> nor its value, and the
  value of \<^verbatim>\<open>BETA\<close>, which has a double quote, is in it only in its quoted form.
\<close>

theorem rejected_value_overwritten_counterexample:
  "LookupEnv [''ALPHA=bad-1'', ''BETA=bad'' @ [CHR 0x22] @ ''2''] (envName NoPrefix ''alpha'')
       = Some ''bad-1''
   \<and> snd (ValueSet (digits_flag ''alpha'' ''the first number.'' 0) ''bad-1'' ''0'') = Some ''parse error''
   \<and> Error (the (snd (bind [''ALPHA=bad-1'', ''BETA=bad'' @ [CHR 0x22] @ ''2''] two_fs [])))
       = ''invalid value '' @ [CHR 0x22] @ ''bad'' @ [CHR 0x5C, CHR 0x22] @ ''2'' @ [CHR 0x22]
           @ '' for environment variable BETA: parse error''
   \<and> \<not> Contains (Error (the (snd (bind [''ALPHA=bad-1'', ''BETA=bad'' @ [CHR 0x22] @ ''2''] two_fs []))))
           ''ALPHA''
   \<and> \<not> Contains (Error (the (snd (bind [''ALPHA=bad-1'', ''BETA=bad'' @ [CHR 0x22] @ ''2''] two_fs []))))
           ''bad-1''
   \<and> \<not> Contains (Error (the (snd (bind [''ALPHA=bad-1'', ''BETA=bad'' @ [CHR 0x22] @ ''2''] two_fs []))))
           (''bad'' @ [CHR 0x22] @ ''2'')"
proof -
  have b: "snd (bind [''ALPHA=bad-1'', ''BETA=bad'' @ [CHR 0x22] @ ''2''] two_fs [])
       = Some (ErrInvalidValue (''bad'' @ [CHR 0x22] @ ''2'') ''BETA'' ''parse error'')"
    by (simp add: eval_defs two_fs_def digits_flag_def)
  show ?thesis
    unfolding b by (simp add: eval_defs two_fs_def digits_flag_def)
qed

text \<open>
  The restore is a call of \<open>Set\<close>: a value that appends what it is set to does not come
  back to what it was.
\<close>

lemma restore_by_Set_example:
  "snd (bind [''DIGITS=x''] append_fs []) = Some (ErrInvalidValue ''x'' ''DIGITS'' ''parse error'')
   \<and> heap append_fs 0 = ''12''
   \<and> heap (fst (bind [''DIGITS=x''] append_fs [])) 0 = ''1212''"
  by (simp add: eval_defs append_fs_def append_flag_def)

section \<open>Strict prefixes\<close>

text \<open>
  When no value was rejected and no strict prefix string has an equals sign, \<open>bind\<close> on a
  flag set that has not parsed returns the strict-violation error exactly when the name of
  some entry of the environment begins with the string of a strict prefix and is not the
  name of a set variable of a registered flag under a prefix of the list; otherwise it
  returns no error.
\<close>

lemma bind_strict_violation_iff:
  assumes "\<not> parsed fs"
    and "visitErr (snd (VisitAll env (if ps = [] then [NoPrefix] else ps) (formal fs)
            \<lparr>matchedEnvValues = (\<lambda>_. False), visitErr = None, vars = heap fs\<rparr>)) = None"
    and "\<forall>p\<in>set (if ps = [] then [NoPrefix] else ps). strict p \<longrightarrow> CHR ''='' \<notin> set (prefix p)"
  shows "(\<exists>n. snd (bind env fs ps) = Some (ErrNotDefined n)) \<longleftrightarrow>
         (\<exists>e\<in>set env. \<exists>p\<in>set (if ps = [] then [NoPrefix] else ps).
            strict p \<and> HasPrefix (hd (Split e CHR ''='')) (prefix p) \<and>
            \<not> (\<exists>f\<in>set (formal fs). \<exists>q\<in>set (if ps = [] then [NoPrefix] else ps).
                  hd (Split e CHR ''='') = envName q (Name f) \<and>
                  LookupEnv env (hd (Split e CHR ''='')) \<noteq> None))"
    and "snd (bind env fs ps) = None \<or> (\<exists>n. snd (bind env fs ps) = Some (ErrNotDefined n))"
proof -
  define eff where "eff = (if ps = [] then [NoPrefix] else ps)"
  define st where "st = fold (\<lambda>f. visit_prefixes env f eff) (formal fs)
               \<lparr>matchedEnvValues = (\<lambda>_. False), visitErr = None, vars = heap fs\<rparr>"
  have v: "visitErr st = None"
    using assms(2) by (simp add: VisitAll_snd st_def eff_def)
  have b: "snd (bind env fs ps) = strict_environ (matchedEnvValues st) env eff"
    unfolding st_def eff_def using assms(1) v [unfolded st_def eff_def]
    by (simp add: bind_unparsed Let_def)
  have m: "matchedEnvValues st n \<longleftrightarrow>
      (\<exists>f\<in>set (formal fs). \<exists>q\<in>set eff. n = envName q (Name f) \<and> LookupEnv env n \<noteq> None)" for n
    by (simp add: st_def matched_fold_iff)
  have hp: "HasPrefix e (prefix p) = HasPrefix (hd (Split e CHR ''='')) (prefix p)"
    if "p \<in> set eff" "strict p" for e p
    using assms(3) that by (intro HasPrefix_name) (simp add: eff_def)
  have "(\<exists>n. strict_environ (matchedEnvValues st) env eff = Some (ErrNotDefined n)) \<longleftrightarrow>
        (\<exists>e\<in>set env. \<exists>p\<in>set eff. strict p \<and> HasPrefix e (prefix p) \<and>
            \<not> matchedEnvValues st (hd (Split e CHR ''='')))"
  proof
    assume "\<exists>n. strict_environ (matchedEnvValues st) env eff = Some (ErrNotDefined n)"
    then obtain n where "strict_environ (matchedEnvValues st) env eff = Some (ErrNotDefined n)" ..
    from strict_environ_Some_D [OF this]
    show "\<exists>e\<in>set env. \<exists>p\<in>set eff. strict p \<and> HasPrefix e (prefix p) \<and>
            \<not> matchedEnvValues st (hd (Split e CHR ''=''))"
      by blast
  next
    assume "\<exists>e\<in>set env. \<exists>p\<in>set eff. strict p \<and> HasPrefix e (prefix p) \<and>
            \<not> matchedEnvValues st (hd (Split e CHR ''=''))"
    then have "strict_environ (matchedEnvValues st) env eff \<noteq> None"
      unfolding strict_environ_None_iff by blast
    then obtain err where e: "strict_environ (matchedEnvValues st) env eff = Some err"
      by blast
    from strict_environ_Some_D [OF e] obtain n where "err = ErrNotDefined n" by blast
    with e show "\<exists>n. strict_environ (matchedEnvValues st) env eff = Some (ErrNotDefined n)"
      by blast
  qed
  also have "\<dots> \<longleftrightarrow> (\<exists>e\<in>set env. \<exists>p\<in>set eff. strict p \<and>
            HasPrefix (hd (Split e CHR ''='')) (prefix p) \<and>
            \<not> matchedEnvValues st (hd (Split e CHR ''='')))"
    using hp by blast
  finally show "(\<exists>n. snd (bind env fs ps) = Some (ErrNotDefined n)) \<longleftrightarrow>
         (\<exists>e\<in>set env. \<exists>p\<in>set (if ps = [] then [NoPrefix] else ps).
            strict p \<and> HasPrefix (hd (Split e CHR ''='')) (prefix p) \<and>
            \<not> (\<exists>f\<in>set (formal fs). \<exists>q\<in>set (if ps = [] then [NoPrefix] else ps).
                  hd (Split e CHR ''='') = envName q (Name f) \<and>
                  LookupEnv env (hd (Split e CHR ''='')) \<noteq> None))"
    unfolding b m eff_def .
  show "snd (bind env fs ps) = None \<or> (\<exists>n. snd (bind env fs ps) = Some (ErrNotDefined n))"
  proof (cases "strict_environ (matchedEnvValues st) env eff")
    case None
    then show ?thesis by (simp add: b)
  next
    case (Some err)
    from strict_environ_Some_D [OF Some] obtain n where "err = ErrNotDefined n" by blast
    with Some show ?thesis by (simp add: b)
  qed
qed

text \<open>
  C4. The check tests \<^verbatim>\<open>strings.HasPrefix\<close> on the whole entry \<^verbatim>\<open>NAME=value\<close>, not on the
  name. With the strict prefix string \<^verbatim>\<open>MYAPP_PORT=80\<close> and the entry \<^verbatim>\<open>MYAPP_PORT=8080\<close>,
  \<open>bind\<close> returns the strict-violation error for \<^verbatim>\<open>MYAPP_PORT\<close>, although this name does
  not begin with the prefix string.
\<close>

theorem strict_prefix_matches_entry:
  "snd (bind [''MYAPP_PORT=8080''] test_fs [NewPrefix ''MYAPP_PORT=80'' [Strict True]])
     = Some (ErrNotDefined ''MYAPP_PORT'')
   \<and> \<not> HasPrefix ''MYAPP_PORT'' (prefix (NewPrefix ''MYAPP_PORT=80'' [Strict True]))"
  by (simp add: eval_defs test_fs_def string_flag_def)

end
